theory Spec2Isabelle
  imports Main
begin

section \<open>Wire formats\<close>

text \<open>
  The two JSON layers of an SNS call (bouncehandler.go, \<^verbatim>\<open>snsMsg\<close> and
  \<^verbatim>\<open>payload\<close>). A Go pointer to a struct that may be nil is an option, a
  slice is a list, a Go string is a list of bytes.
\<close>

record snsMsg =
  sns_Type :: string
  sns_URL :: string
  sns_Message :: string

record bouncedRecipient =
  br_Email :: string
  br_Diagnostic :: string

record bounce =
  bounce_Type :: string
  bounce_Recipients :: "bouncedRecipient list"

record complainedRecipient =
  cr_Email :: string
  cr_Feedback :: string

record complaint =
  complaint_Recipients :: "complainedRecipient list"

record payload =
  msg_Type :: string
  mail_Source :: string
  msg_Bounce :: "bounce option"
  msg_Complaint :: "complaint option"

section \<open>Channels, the handler and its registry\<close>

text \<open>
  A buffered Go channel of strings: the addresses waiting in it, oldest first, and the
  capacity it was made with. \<^verbatim>\<open>make(chan string, n)\<close> is \<open>make_chan n\<close>.
\<close>

record chan =
  ch_buf :: "string list"
  ch_cap :: nat

definition make_chan :: "nat \<Rightarrow> chan" where
  "make_chan n = \<lparr>ch_buf = [], ch_cap = n\<rparr>"

text \<open>
  A goroutine started by \<^verbatim>\<open>Register\<close>: it receives from the channel stored under
  \<open>w_key\<close> and calls the blacklister \<open>w_f\<close> on every address. The blacklister is
  a closure over a database connection, so its type is left open.
\<close>

record 'f worker =
  w_key :: string
  w_f :: 'f

text \<open>
  \<^verbatim>\<open>type handler struct\<close>. Every key of \<open>h_m\<close> owns the channel made for it
  (\<^verbatim>\<open>Register\<close> is the only writer and makes a fresh channel each time), so the
  channel is stored by value under its key. \<open>h_done\<close> is the cancellation state of
  \<^verbatim>\<open>ctx\<close>; \<open>h_workers\<close> lists the goroutines started so far. The logger is
  a sink: every call to it is an event of the trace below.
\<close>

record 'f handler =
  h_m :: "string \<rightharpoonup> chan"
  h_done :: bool
  h_workers :: "'f worker list"
  h_user :: string
  h_pass :: string

definition newHandler :: "'f handler" where
  "newHandler = \<lparr>h_m = Map.empty, h_done = False, h_workers = [], h_user = [], h_pass = []\<rparr>"

definition withBasicAuth :: "'f handler \<Rightarrow> string \<Rightarrow> string \<Rightarrow> 'f handler" where
  "withBasicAuth h u p = h\<lparr>h_user := u, h_pass := p\<rparr>"

definition Close :: "'f handler \<Rightarrow> 'f handler" where
  "Close h = h\<lparr>h_done := True\<rparr>"

datatype panic = AlreadyRegistered string

text \<open>
  \<^verbatim>\<open>Register\<close>: the panic is the left summand and leaves no new state; otherwise a
  channel of capacity 100 is stored under the sender and one goroutine is started on it.
\<close>

definition Register :: "'f handler \<Rightarrow> string \<Rightarrow> 'f \<Rightarrow> panic + 'f handler" where
  "Register h srcEmail f =
     (case h_m h srcEmail of
        Some _ \<Rightarrow> Inl (AlreadyRegistered srcEmail)
      | None \<Rightarrow>
          Inr (h\<lparr>h_m := (h_m h)(srcEmail \<mapsto> make_chan 100),
                 h_workers := h_workers h @ [\<lparr>w_key = srcEmail, w_f = f\<rparr>]\<rparr>))"

definition defaultKey :: string where
  "defaultKey = ''*''"

section \<open>Requests, responses and effects\<close>

text \<open>
  What \<^verbatim>\<open>ServeHTTP\<close> reads of a request: the body, and the result of
  \<^verbatim>\<open>r.BasicAuth()\<close> (\<open>None\<close> when its \<^verbatim>\<open>ok\<close> is false).
\<close>

record request =
  req_Body :: string
  req_BasicAuth :: "(string \<times> string) option"

text \<open>
  What the handler writes: the headers it sets itself, the status code and the message
  given to \<^verbatim>\<open>http.Error\<close>. A response nobody wrote a status to is sent as 200.
\<close>

record response =
  resp_header :: "string \<rightharpoonup> string"
  resp_status :: nat
  resp_body :: string

definition new_response :: response where
  "new_response = \<lparr>resp_header = Map.empty, resp_status = 200, resp_body = []\<rparr>"

definition StatusNoContent :: nat where "StatusNoContent = 204"
definition StatusBadRequest :: nat where "StatusBadRequest = 400"
definition StatusUnauthorized :: nat where "StatusUnauthorized = 401"

definition StatusText :: "nat \<Rightarrow> string" where
  "StatusText code =
     (if code = 204 then ''No Content''
      else if code = 400 then ''Bad Request''
      else if code = 401 then ''Unauthorized''
      else [])"

definition Header_Set :: "string \<Rightarrow> string \<Rightarrow> response \<Rightarrow> response" where
  "Header_Set k v w = w\<lparr>resp_header := (resp_header w)(k \<mapsto> v)\<rparr>"

definition http_Error :: "response \<Rightarrow> string \<Rightarrow> nat \<Rightarrow> response" where
  "http_Error w msg code = w\<lparr>resp_status := code, resp_body := msg\<rparr>"

definition WriteHeader :: "nat \<Rightarrow> response \<Rightarrow> response" where
  "WriteHeader code w = w\<lparr>resp_status := code\<rparr>"

text \<open>
  The trace of a request: one event for each call to the logger (one constructor for each
  call site), for the outbound GET of \<^verbatim>\<open>confirm\<close>, and for each send that a
  channel accepted (\<open>ChanSend k a\<close>: address \<open>a\<close> on the channel stored under
  \<open>k\<close>).
\<close>

datatype event =
    LogError string
  | LogFollowing string
  | LogUnsupportedSNS string
  | LogUnsupportedMsg string
  | LogUnconfigured string
  | LogBounce string string string
  | LogComplaint string string string
  | LogOverflow string string
  | HttpGet string
  | ChanSend string string

text \<open>
  The library calls whose results the handler branches on: the two JSON decoders
  (\<open>Inl\<close> the error) and the outcome of \<^verbatim>\<open>http.Get\<close> (\<open>Some\<close> the error).
\<close>

record env =
  json_Decode :: "string \<Rightarrow> string + snsMsg"
  json_Unmarshal :: "string \<Rightarrow> string + payload"
  http_Get :: "string \<Rightarrow> string option"

definition confirm :: "env \<Rightarrow> string \<Rightarrow> string option \<times> event list" where
  "confirm e link =
     (case http_Get e link of
        Some err \<Rightarrow> (Some err, [HttpGet link])
      | None \<Rightarrow> (None, [HttpGet link]))"

text \<open>\<^verbatim>\<open>strings.Contains\<close>: some suffix of \<open>s\<close> starts with \<open>substr\<close>.\<close>

fun Contains :: "string \<Rightarrow> string \<Rightarrow> bool" where
  "Contains [] substr = (substr = [])"
| "Contains (c # s) substr = (take (length substr) (c # s) = substr \<or> Contains s substr)"

section \<open>The request handler\<close>

text \<open>
  One request is followed from its first line to its last on its own: neither the
  workers, which only take addresses out of a channel, nor other requests are
  interleaved with it.

  The \<^verbatim>\<open>select\<close> with a \<^verbatim>\<open>default\<close> branch, the same in both loops: the send
  goes through when the buffer has room, otherwise the overflow is logged and nothing
  else happens. Either way the statement is over at once.
\<close>

definition select_send :: "string \<Rightarrow> string \<Rightarrow> string \<Rightarrow> chan \<Rightarrow> chan \<times> event list" where
  "select_send sender k email ch =
     (if length (ch_buf ch) < ch_cap ch
      then (ch\<lparr>ch_buf := ch_buf ch @ [email]\<rparr>, [ChanSend k email])
      else (ch, [LogOverflow sender email]))"

fun bounce_loop ::
  "string \<Rightarrow> string \<Rightarrow> bouncedRecipient list \<Rightarrow> chan \<Rightarrow> chan \<times> event list" where
  "bounce_loop sender k [] ch = (ch, [])"
| "bounce_loop sender k (r # rs) ch =
     (let (ch', ev) = select_send sender k (br_Email r) ch;
          (ch'', evs) = bounce_loop sender k rs ch'
      in (ch'', LogBounce sender (br_Email r) (br_Diagnostic r) # ev @ evs))"

fun complaint_loop ::
  "string \<Rightarrow> string \<Rightarrow> complainedRecipient list \<Rightarrow> chan \<Rightarrow> chan \<times> event list" where
  "complaint_loop sender k [] ch = (ch, [])"
| "complaint_loop sender k (r # rs) ch =
     (let (ch', ev) = select_send sender k (cr_Email r) ch;
          (ch'', evs) = complaint_loop sender k rs ch'
      in (ch'', LogComplaint sender (cr_Email r) (cr_Feedback r) # ev @ evs))"

text \<open>Lines 215 to 236: the bounce block, then the complaint block, on one channel.\<close>

definition dispatch :: "string \<Rightarrow> string \<Rightarrow> payload \<Rightarrow> chan \<Rightarrow> chan \<times> event list" where
  "dispatch sender k msg ch =
     (let (ch1, ev1) =
            (case msg_Bounce msg of
               Some b \<Rightarrow>
                 if bounce_Type b = ''Permanent''
                 then bounce_loop sender k (bounce_Recipients b) ch
                 else (ch, [])
             | None \<Rightarrow> (ch, []));
          (ch2, ev2) =
            (case msg_Complaint msg of
               Some c \<Rightarrow> complaint_loop sender k (complaint_Recipients c) ch1
             | None \<Rightarrow> (ch1, []))
      in (ch2, ev1 @ ev2))"

text \<open>
  Lines 206 to 209: the sender's own entry, else the entry of \<open>defaultKey\<close>. The key
  comes back with the channel, since the channel is written back under it.
\<close>

definition resolve :: "'f handler \<Rightarrow> string \<Rightarrow> (string \<times> chan) option" where
  "resolve h sender =
     (case h_m h sender of
        Some ch \<Rightarrow> Some (sender, ch)
      | None \<Rightarrow>
          (case h_m h defaultKey of
             Some ch \<Rightarrow> Some (defaultKey, ch)
           | None \<Rightarrow> None))"

text \<open>
  \<^verbatim>\<open>ServeHTTP\<close>, branch for branch. The result is the handler afterwards, the
  response and the trace. \<^verbatim>\<open>io.LimitReader(r.Body, 2<<20)\<close> hands the decoder the
  first \<open>2 * 2 ^ 20\<close> bytes of the body.
\<close>

definition ServeHTTP :: "env \<Rightarrow> 'f handler \<Rightarrow> request \<Rightarrow> 'f handler \<times> response \<times> event list" where
  \<open>ServeHTTP e h r =
     (if h_user h \<noteq> [] \<and> h_pass h \<noteq> [] \<and>
         (case req_BasicAuth r of
            None \<Rightarrow> True
          | Some (u, p) \<Rightarrow> u \<noteq> h_user h \<or> p \<noteq> h_pass h)
      then
        (h,
         http_Error (Header_Set ''WWW-Authenticate'' ''Basic realm="private"'' new_response)
           (StatusText StatusUnauthorized) StatusUnauthorized,
         [])
      else
        (case json_Decode e (take (2 * 2 ^ 20) (req_Body r)) of
           Inl err \<Rightarrow>
             (h, http_Error new_response (StatusText StatusBadRequest) StatusBadRequest,
              [LogError err])
         | Inr sns \<Rightarrow>
             if sns_Type sns = ''SubscriptionConfirmation'' then
               (h, WriteHeader StatusNoContent new_response,
                if Contains (sns_URL sns) ''amazonaws.com''
                then LogFollowing (sns_URL sns) # snd (confirm e (sns_URL sns))
                else [])
             else if sns_Type sns \<noteq> ''Notification'' then
               (h, http_Error new_response (StatusText StatusBadRequest) StatusBadRequest,
                [LogUnsupportedSNS (sns_Type sns)])
             else
               (case json_Unmarshal e (sns_Message sns) of
                  Inl err \<Rightarrow>
                    (h, http_Error new_response (StatusText StatusBadRequest) StatusBadRequest,
                     [LogError err])
                | Inr msg \<Rightarrow>
                    if msg_Type msg \<noteq> ''Bounce'' \<and> msg_Type msg \<noteq> ''Complaint'' then
                      (h, WriteHeader StatusNoContent new_response,
                       [LogUnsupportedMsg (msg_Type msg)])
                    else
                      (case resolve h (mail_Source msg) of
                         None \<Rightarrow>
                           (h, WriteHeader StatusNoContent new_response,
                            [LogUnconfigured (mail_Source msg)])
                       | Some (k, ch) \<Rightarrow>
                           (let (ch', evs) = dispatch (mail_Source msg) k msg ch
                            in (h\<lparr>h_m := (h_m h)(k \<mapsto> ch')\<rparr>,
                                WriteHeader StatusNoContent new_response, evs))))))\<close>

section \<open>Observing a request\<close>

text \<open>
  The three components of the result of \<open>ServeHTTP\<close>, and what is read off a trace:
  the sends that went through (key of the channel, address), the overflow log lines
  (sender, address), the per-recipient log lines that precede every send attempt (sender,
  address), and the URLs fetched.
\<close>

definition after :: "env \<Rightarrow> 'f handler \<Rightarrow> request \<Rightarrow> 'f handler" where
  "after e h r = fst (ServeHTTP e h r)"

definition reply :: "env \<Rightarrow> 'f handler \<Rightarrow> request \<Rightarrow> response" where
  "reply e h r = fst (snd (ServeHTTP e h r))"

definition trace :: "env \<Rightarrow> 'f handler \<Rightarrow> request \<Rightarrow> event list" where
  "trace e h r = snd (snd (ServeHTTP e h r))"

fun sends :: "event list \<Rightarrow> (string \<times> string) list" where
  "sends [] = []"
| "sends (ChanSend k a # es) = (k, a) # sends es"
| "sends (_ # es) = sends es"

fun overflows :: "event list \<Rightarrow> (string \<times> string) list" where
  "overflows [] = []"
| "overflows (LogOverflow s a # es) = (s, a) # overflows es"
| "overflows (_ # es) = overflows es"

fun attempts :: "event list \<Rightarrow> (string \<times> string) list" where
  "attempts [] = []"
| "attempts (LogBounce s a d # es) = (s, a) # attempts es"
| "attempts (LogComplaint s a f # es) = (s, a) # attempts es"
| "attempts (_ # es) = attempts es"

fun gets :: "event list \<Rightarrow> string list" where
  "gets [] = []"
| "gets (HttpGet u # es) = u # gets es"
| "gets (_ # es) = gets es"

text \<open>
  The request gets past the credential check: the check is off (a configured credential
  is empty) or the request carries exactly the configured pair.
\<close>

definition authorized :: "'f handler \<Rightarrow> request \<Rightarrow> bool" where
  "authorized h r =
     (h_user h = [] \<or> h_pass h = [] \<or> req_BasicAuth r = Some (h_user h, h_pass h))"

text \<open>
  The request gets as far as a decoded inner payload \<open>msg\<close>: it passes the credential
  check, its body decodes to an envelope of type Notification, and the envelope's message
  decodes to \<open>msg\<close>.
\<close>

definition notification :: "env \<Rightarrow> 'f handler \<Rightarrow> request \<Rightarrow> payload \<Rightarrow> bool" where
  "notification e h r msg =
     (authorized h r \<and>
      (case json_Decode e (take (2 * 2 ^ 20) (req_Body r)) of
         Inl err \<Rightarrow> False
       | Inr sns \<Rightarrow>
           sns_Type sns = ''Notification'' \<and> json_Unmarshal e (sns_Message sns) = Inr msg))"

text \<open>The payload passes the switch on \<^verbatim>\<open>msg.Type\<close> (lines 198 to 204).\<close>

definition actionable :: "payload \<Rightarrow> bool" where
  "actionable msg = (msg_Type msg = ''Bounce'' \<or> msg_Type msg = ''Complaint'')"

text \<open>
  The addresses the two blocks of lines 215 to 236 walk through, in order: the recipients
  of a bounce object that is present and Permanent, and the recipients of a complaint
  object that is present. Neither looks at \<open>msg_Type\<close>.
\<close>

definition bounce_emails :: "payload \<Rightarrow> string list" where
  "bounce_emails msg =
     (case msg_Bounce msg of
        Some b \<Rightarrow>
          if bounce_Type b = ''Permanent'' then map br_Email (bounce_Recipients b) else []
      | None \<Rightarrow> [])"

definition complaint_emails :: "payload \<Rightarrow> string list" where
  "complaint_emails msg =
     (case msg_Complaint msg of
        Some c \<Rightarrow> map cr_Email (complaint_Recipients c)
      | None \<Rightarrow> [])"

text \<open>The workers bound to the entry of a key.\<close>

definition workers_on :: "'f handler \<Rightarrow> string \<Rightarrow> 'f worker list" where
  "workers_on h k = filter (\<lambda>w. w_key w = k) (h_workers h)"

text \<open>The free slots of a channel.\<close>

definition room :: "chan \<Rightarrow> nat" where
  "room ch = ch_cap ch - length (ch_buf ch)"

text \<open>
  The decoded envelope of a request, and the three conditions on it that end in a Bad
  Request.
\<close>

definition envelope :: "env \<Rightarrow> request \<Rightarrow> string + snsMsg" where
  "envelope e r = json_Decode e (take (2 * 2 ^ 20) (req_Body r))"

definition outer_decode_fails :: "env \<Rightarrow> request \<Rightarrow> bool" where
  "outer_decode_fails e r = (case envelope e r of Inl err \<Rightarrow> True | Inr sns \<Rightarrow> False)"

definition outer_type_is :: "env \<Rightarrow> request \<Rightarrow> string \<Rightarrow> bool" where
  "outer_type_is e r t = (case envelope e r of Inl err \<Rightarrow> False | Inr sns \<Rightarrow> sns_Type sns = t)"

definition outer_type_unsupported :: "env \<Rightarrow> request \<Rightarrow> bool" where
  "outer_type_unsupported e r =
     (case envelope e r of
        Inl err \<Rightarrow> False
      | Inr sns \<Rightarrow>
          sns_Type sns \<noteq> ''SubscriptionConfirmation'' \<and> sns_Type sns \<noteq> ''Notification'')"

definition inner_decode_fails :: "env \<Rightarrow> request \<Rightarrow> bool" where
  "inner_decode_fails e r =
     (case envelope e r of
        Inl err \<Rightarrow> False
      | Inr sns \<Rightarrow>
          (case json_Unmarshal e (sns_Message sns) of Inl err \<Rightarrow> True | Inr msg \<Rightarrow> False))"

text \<open>
  The host of a URL as the specification speaks of it, for comparison with the test the
  code makes: what stands between \<^verbatim>\<open>://\<close> and the next \<^verbatim>\<open>/\<close>, \<^verbatim>\<open>?\<close> or
  \<^verbatim>\<open>#\<close>. \<open>spec_host_matches\<close> is the weakest reading of "the host matches the
  domain": the host mentions it somewhere.
\<close>

fun spec_after_scheme :: "string \<Rightarrow> string" where
  "spec_after_scheme (a # b # c # s) = (if [a, b, c] = ''://'' then s else spec_after_scheme (b # c # s))"
| "spec_after_scheme s = []"

definition spec_url_host :: "string \<Rightarrow> string" where
  "spec_url_host u = takeWhile (\<lambda>x. x \<notin> set ''/?#'') (spec_after_scheme u)"

definition spec_host_matches :: "string \<Rightarrow> bool" where
  "spec_host_matches u = Contains (spec_url_host u) ''amazonaws.com''"

section \<open>Concrete inputs\<close>

text \<open>
  Decoders given by tables from texts to decoded values (any other text is a syntax
  error); a handler with one registered sender, as \<open>Register\<close> builds it, with some
  addresses waiting in the queue; and a few envelopes and payloads.
\<close>

definition table_env :: "(string \<times> snsMsg) list \<Rightarrow> (string \<times> payload) list \<Rightarrow> env" where
  "table_env outer inner =
     \<lparr>json_Decode = (\<lambda>b. case map_of outer b of
                          Some sns \<Rightarrow> Inr sns
                        | None \<Rightarrow> Inl ''invalid character''),
      json_Unmarshal = (\<lambda>b. case map_of inner b of
                          Some msg \<Rightarrow> Inr msg
                        | None \<Rightarrow> Inl ''invalid character''),
      http_Get = (\<lambda>u. None)\<rparr>"

definition ex_envelope :: snsMsg where
  "ex_envelope = \<lparr>sns_Type = ''Notification'', sns_URL = [], sns_Message = ''{payload}''\<rparr>"

definition ex_env :: "payload \<Rightarrow> env" where
  "ex_env msg = table_env [(''{envelope}'', ex_envelope)] [(''{payload}'', msg)]"

definition ex_env2 :: "payload \<Rightarrow> payload \<Rightarrow> env" where
  "ex_env2 msg msg' =
     table_env
       [(''{envelope}'', ex_envelope),
        (''{envelope2}'', ex_envelope\<lparr>sns_Message := ''{payload2}''\<rparr>)]
       [(''{payload}'', msg), (''{payload2}'', msg')]"

definition ex_confirmation :: "string \<Rightarrow> snsMsg" where
  "ex_confirmation u =
     \<lparr>sns_Type = ''SubscriptionConfirmation'', sns_URL = u,
      sns_Message = ''You have chosen to subscribe to the topic''\<rparr>"

definition ex_env_outer :: "snsMsg \<Rightarrow> env" where
  "ex_env_outer sns = table_env [(''{envelope}'', sns)] []"

definition ex_request :: request where
  "ex_request = \<lparr>req_Body = ''{envelope}'', req_BasicAuth = None\<rparr>"

definition ex_request2 :: request where
  "ex_request2 = \<lparr>req_Body = ''{envelope2}'', req_BasicAuth = None\<rparr>"

definition ex_handler :: "string \<Rightarrow> string list \<Rightarrow> unit handler" where
  "ex_handler k waiting =
     \<lparr>h_m = [k \<mapsto> \<lparr>ch_buf = waiting, ch_cap = 100\<rparr>], h_done = False,
      h_workers = [\<lparr>w_key = k, w_f = ()\<rparr>], h_user = [], h_pass = []\<rparr>"

abbreviation ex_news :: "unit handler" where
  "ex_news \<equiv> ex_handler ''news@example.com'' []"

abbreviation ex_full :: "unit handler" where
  "ex_full \<equiv> ex_handler ''news@example.com'' (replicate 100 ''old@x.org'')"

abbreviation ex_nearly_full :: "unit handler" where
  "ex_nearly_full \<equiv> ex_handler ''news@example.com'' (replicate 99 ''old@x.org'')"

abbreviation ex_sns_url :: string where
  "ex_sns_url \<equiv> ''https://sns.us-east-1.amazonaws.com/?Action=ConfirmSubscription''"

abbreviation ex_bad_body :: request where
  "ex_bad_body \<equiv> ex_request\<lparr>req_Body := ''{''\<rparr>"

definition ex_locked :: "unit handler" where
  "ex_locked = withBasicAuth (ex_handler ''news@example.com'' []) ''sns'' ''secret''"

definition ex_bounce_obj :: "string \<Rightarrow> bounce" where
  "ex_bounce_obj t =
     \<lparr>bounce_Type = t,
      bounce_Recipients = [\<lparr>br_Email = ''a@x.org'', br_Diagnostic = ''550''\<rparr>,
                           \<lparr>br_Email = ''b@x.org'', br_Diagnostic = ''551''\<rparr>]\<rparr>"

definition ex_bounce :: "string \<Rightarrow> payload" where
  "ex_bounce t =
     \<lparr>msg_Type = ''Bounce'', mail_Source = ''news@example.com'',
      msg_Bounce = Some (ex_bounce_obj t), msg_Complaint = None\<rparr>"

definition ex_complaint_obj :: complaint where
  "ex_complaint_obj =
     \<lparr>complaint_Recipients = [\<lparr>cr_Email = ''c@x.org'', cr_Feedback = ''abuse''\<rparr>,
                              \<lparr>cr_Email = ''d@x.org'', cr_Feedback = ''abuse''\<rparr>]\<rparr>"

definition ex_complaint :: payload where
  "ex_complaint =
     \<lparr>msg_Type = ''Complaint'', mail_Source = ''news@example.com'',
      msg_Bounce = None, msg_Complaint = Some ex_complaint_obj\<rparr>"

definition ex_both_complaint :: complaint where
  "ex_both_complaint =
     \<lparr>complaint_Recipients = [\<lparr>cr_Email = ''c@x.org'', cr_Feedback = ''abuse''\<rparr>]\<rparr>"

definition ex_both :: "string \<Rightarrow> payload" where
  "ex_both t =
     \<lparr>msg_Type = t, mail_Source = ''news@example.com'',
      msg_Bounce = Some \<lparr>bounce_Type = ''Permanent'',
        bounce_Recipients = [\<lparr>br_Email = ''a@x.org'', br_Diagnostic = ''550''\<rparr>]\<rparr>,
      msg_Complaint = Some ex_both_complaint\<rparr>"

definition ex_delivery :: payload where
  "ex_delivery =
     \<lparr>msg_Type = ''Delivery'', mail_Source = ''news@example.com'',
      msg_Bounce = None, msg_Complaint = None\<rparr>"

section \<open>The loops and the dispatch block in closed form\<close>

text \<open>The definitions that evaluating a concrete request unfolds.\<close>

lemmas eval_defs =
  notification_def authorized_def actionable_def resolve_def room_def defaultKey_def
  bounce_emails_def complaint_emails_def withBasicAuth_def
  table_env_def ex_env_def ex_env2_def ex_env_outer_def ex_envelope_def ex_confirmation_def
  ex_request_def ex_request2_def ex_handler_def ex_locked_def
  ex_bounce_def ex_bounce_obj_def ex_complaint_def ex_complaint_obj_def
  ex_both_def ex_both_complaint_def ex_delivery_def

lemma sends_append: "sends (xs @ ys) = sends xs @ sends ys"
  by (induction xs rule: sends.induct) simp_all

lemma overflows_append: "overflows (xs @ ys) = overflows xs @ overflows ys"
  by (induction xs rule: overflows.induct) simp_all

lemma attempts_append: "attempts (xs @ ys) = attempts xs @ attempts ys"
  by (induction xs rule: attempts.induct) simp_all

lemma select_send_room:
  "0 < room ch \<Longrightarrow>
     select_send s k a ch = (ch\<lparr>ch_buf := ch_buf ch @ [a]\<rparr>, [ChanSend k a])"
  by (simp add: select_send_def room_def)

lemma select_send_full:
  "room ch = 0 \<Longrightarrow> select_send s k a ch = (ch, [LogOverflow s a])"
  by (simp add: select_send_def room_def)

lemma room_after_send: "room (ch\<lparr>ch_buf := ch_buf ch @ [a]\<rparr>) = room ch - 1"
  by (simp add: room_def)

lemma bounce_loop_effect:
  "fst (bounce_loop s k rs ch) = ch\<lparr>ch_buf := ch_buf ch @ take (room ch) (map br_Email rs)\<rparr> \<and>
   sends (snd (bounce_loop s k rs ch)) = map (Pair k) (take (room ch) (map br_Email rs)) \<and>
   overflows (snd (bounce_loop s k rs ch)) = map (Pair s) (drop (room ch) (map br_Email rs)) \<and>
   attempts (snd (bounce_loop s k rs ch)) = map (Pair s) (map br_Email rs)"
proof (induction rs arbitrary: ch)
  case Nil
  show ?case by simp
next
  case (Cons r rs)
  show ?case
  proof (cases "room ch")
    case 0
    then show ?thesis
      using Cons.IH [of ch]
      by (simp add: select_send_full split_beta sends_append overflows_append attempts_append)
  next
    case (Suc n)
    then have "room (ch\<lparr>ch_buf := ch_buf ch @ [br_Email r]\<rparr>) = n"
      by (simp add: room_after_send)
    then show ?thesis
      using Suc Cons.IH [of "ch\<lparr>ch_buf := ch_buf ch @ [br_Email r]\<rparr>"]
      by (simp add: select_send_room split_beta sends_append overflows_append attempts_append)
  qed
qed

lemma complaint_loop_effect:
  "fst (complaint_loop s k rs ch) = ch\<lparr>ch_buf := ch_buf ch @ take (room ch) (map cr_Email rs)\<rparr> \<and>
   sends (snd (complaint_loop s k rs ch)) = map (Pair k) (take (room ch) (map cr_Email rs)) \<and>
   overflows (snd (complaint_loop s k rs ch)) = map (Pair s) (drop (room ch) (map cr_Email rs)) \<and>
   attempts (snd (complaint_loop s k rs ch)) = map (Pair s) (map cr_Email rs)"
proof (induction rs arbitrary: ch)
  case Nil
  show ?case by simp
next
  case (Cons r rs)
  show ?case
  proof (cases "room ch")
    case 0
    then show ?thesis
      using Cons.IH [of ch]
      by (simp add: select_send_full split_beta sends_append overflows_append attempts_append)
  next
    case (Suc n)
    then have "room (ch\<lparr>ch_buf := ch_buf ch @ [cr_Email r]\<rparr>) = n"
      by (simp add: room_after_send)
    then show ?thesis
      using Suc Cons.IH [of "ch\<lparr>ch_buf := ch_buf ch @ [cr_Email r]\<rparr>"]
      by (simp add: select_send_room split_beta sends_append overflows_append attempts_append)
  qed
qed

lemma room_after_take:
  "room (ch\<lparr>ch_buf := ch_buf ch @ take (room ch) xs\<rparr>) = room ch - length xs"
  by (simp add: room_def min_def)

lemma bounce_block_effect:
  fixes msg s k ch
  defines "B \<equiv> (case msg_Bounce msg of
      Some b \<Rightarrow>
        if bounce_Type b = ''Permanent''
        then bounce_loop s k (bounce_Recipients b) ch
        else (ch, [])
    | None \<Rightarrow> (ch, []))"
  shows "fst B = ch\<lparr>ch_buf := ch_buf ch @ take (room ch) (bounce_emails msg)\<rparr> \<and>
   sends (snd B) = map (Pair k) (take (room ch) (bounce_emails msg)) \<and>
   overflows (snd B) = map (Pair s) (drop (room ch) (bounce_emails msg)) \<and>
   attempts (snd B) = map (Pair s) (bounce_emails msg)"
proof (cases "msg_Bounce msg")
  case None
  then show ?thesis by (simp add: B_def bounce_emails_def)
next
  case (Some b)
  show ?thesis
  proof (cases "bounce_Type b = ''Permanent''")
    case True
    then show ?thesis
      using Some bounce_loop_effect [of s k "bounce_Recipients b" ch]
      by (simp add: B_def bounce_emails_def)
  next
    case False
    then show ?thesis using Some by (simp add: B_def bounce_emails_def)
  qed
qed

lemma complaint_block_effect:
  fixes msg s k ch
  defines "C \<equiv> (case msg_Complaint msg of
      Some c \<Rightarrow> complaint_loop s k (complaint_Recipients c) ch
    | None \<Rightarrow> (ch, []))"
  shows "fst C = ch\<lparr>ch_buf := ch_buf ch @ take (room ch) (complaint_emails msg)\<rparr> \<and>
   sends (snd C) = map (Pair k) (take (room ch) (complaint_emails msg)) \<and>
   overflows (snd C) = map (Pair s) (drop (room ch) (complaint_emails msg)) \<and>
   attempts (snd C) = map (Pair s) (complaint_emails msg)"
proof (cases "msg_Complaint msg")
  case None
  then show ?thesis by (simp add: C_def complaint_emails_def)
next
  case (Some c)
  then show ?thesis
    using complaint_loop_effect [of s k "complaint_Recipients c" ch]
    by (simp add: C_def complaint_emails_def)
qed

lemma dispatch_effect:
  "fst (dispatch s k msg ch) =
     ch\<lparr>ch_buf := ch_buf ch @ take (room ch) (bounce_emails msg @ complaint_emails msg)\<rparr> \<and>
   sends (snd (dispatch s k msg ch)) =
     map (Pair k) (take (room ch) (bounce_emails msg @ complaint_emails msg)) \<and>
   overflows (snd (dispatch s k msg ch)) =
     map (Pair s) (drop (room ch) (bounce_emails msg @ complaint_emails msg)) \<and>
   attempts (snd (dispatch s k msg ch)) =
     map (Pair s) (bounce_emails msg @ complaint_emails msg)"
proof -
  define B where "B = (case msg_Bounce msg of
      Some b \<Rightarrow>
        if bounce_Type b = ''Permanent''
        then bounce_loop s k (bounce_Recipients b) ch
        else (ch, [])
    | None \<Rightarrow> (ch, []))"
  define C where "C = (case msg_Complaint msg of
      Some c \<Rightarrow> complaint_loop s k (complaint_Recipients c) (fst B)
    | None \<Rightarrow> (fst B, []))"
  have d: "dispatch s k msg ch = (fst C, snd B @ snd C)"
    unfolding dispatch_def C_def B_def by (simp add: split_beta)
  have b: "fst B = ch\<lparr>ch_buf := ch_buf ch @ take (room ch) (bounce_emails msg)\<rparr>"
    "sends (snd B) = map (Pair k) (take (room ch) (bounce_emails msg))"
    "overflows (snd B) = map (Pair s) (drop (room ch) (bounce_emails msg))"
    "attempts (snd B) = map (Pair s) (bounce_emails msg)"
    using bounce_block_effect [where msg = msg and s = s and k = k and ch = ch]
    unfolding B_def by blast+
  have r1: "room (fst B) = room ch - length (bounce_emails msg)"
    unfolding b(1) by (rule room_after_take)
  have c: "fst C = (fst B)\<lparr>ch_buf := ch_buf (fst B) @ take (room (fst B)) (complaint_emails msg)\<rparr>"
    "sends (snd C) = map (Pair k) (take (room (fst B)) (complaint_emails msg))"
    "overflows (snd C) = map (Pair s) (drop (room (fst B)) (complaint_emails msg))"
    "attempts (snd C) = map (Pair s) (complaint_emails msg)"
    using complaint_block_effect [where msg = msg and s = s and k = k and ch = "fst B"]
    unfolding C_def by blast+
  have "fst C = ch\<lparr>ch_buf := ch_buf ch @ take (room ch) (bounce_emails msg @ complaint_emails msg)\<rparr>"
    unfolding c(1) r1 unfolding b(1) by simp
  moreover have "sends (snd B @ snd C) =
      map (Pair k) (take (room ch) (bounce_emails msg @ complaint_emails msg))"
    by (simp add: sends_append b(2) c(2) r1)
  moreover have "overflows (snd B @ snd C) =
      map (Pair s) (drop (room ch) (bounce_emails msg @ complaint_emails msg))"
    by (simp add: overflows_append b(3) c(3) r1)
  moreover have "attempts (snd B @ snd C) =
      map (Pair s) (bounce_emails msg @ complaint_emails msg)"
    by (simp add: attempts_append b(4) c(4))
  ultimately show ?thesis
    unfolding d by simp
qed

lemma auth_gate:
  "(h_user h \<noteq> [] \<and> h_pass h \<noteq> [] \<and>
      (case req_BasicAuth r of
         None \<Rightarrow> True
       | Some (u, p) \<Rightarrow> u \<noteq> h_user h \<or> p \<noteq> h_pass h)) = (\<not> authorized h r)"
  by (auto simp: authorized_def split: option.splits)

lemma ServeHTTP_notification:
  assumes "notification e h r msg"
  shows "ServeHTTP e h r =
     (if \<not> actionable msg
      then (h, WriteHeader StatusNoContent new_response, [LogUnsupportedMsg (msg_Type msg)])
      else
        (case resolve h (mail_Source msg) of
           None \<Rightarrow>
             (h, WriteHeader StatusNoContent new_response, [LogUnconfigured (mail_Source msg)])
         | Some (k, ch) \<Rightarrow>
             (h\<lparr>h_m := (h_m h)(k \<mapsto> fst (dispatch (mail_Source msg) k msg ch))\<rparr>,
              WriteHeader StatusNoContent new_response,
              snd (dispatch (mail_Source msg) k msg ch))))"
proof -
  from assms obtain sns where a: "authorized h r"
    and d: "json_Decode e (take (2 * 2 ^ 20) (req_Body r)) = Inr sns"
    and t: "sns_Type sns = ''Notification''"
    and u: "json_Unmarshal e (sns_Message sns) = Inr msg"
    by (auto simp: notification_def split: sum.splits)
  show ?thesis
    unfolding ServeHTTP_def auth_gate
    using a d t u
    by (simp add: actionable_def split_beta split: option.splits)
qed

lemma Contains_iff: "Contains s sub \<longleftrightarrow> (\<exists>p q. s = p @ sub @ q)"
proof (induction s)
  case Nil
  then show ?case by auto
next
  case (Cons c s)
  show ?case
  proof
    assume "Contains (c # s) sub"
    then consider "take (length sub) (c # s) = sub" | "Contains s sub" by auto
    then show "\<exists>p q. c # s = p @ sub @ q"
    proof cases
      case 1
      then have "c # s = [] @ sub @ drop (length sub) (c # s)"
        by (metis append_Nil append_take_drop_id)
      then show ?thesis by blast
    next
      case 2
      then obtain p q where "s = p @ sub @ q" using Cons.IH by blast
      then have "c # s = (c # p) @ sub @ q" by simp
      then show ?thesis by blast
    qed
  next
    assume "\<exists>p q. c # s = p @ sub @ q"
    then obtain p q where pq: "c # s = p @ sub @ q" by blast
    show "Contains (c # s) sub"
    proof (cases p)
      case Nil
      then have "take (length sub) (c # s) = sub" using pq by simp
      then show ?thesis by simp
    next
      case (Cons a p')
      then have "s = p' @ sub @ q" using pq by simp
      then have "Contains s sub" using Cons.IH by blast
      then show ?thesis by simp
    qed
  qed
qed

lemma status_codes: "resp_status (reply e h r) \<in> {204, 400, 401}"
  by (simp add: reply_def ServeHTTP_def http_Error_def WriteHeader_def Header_Set_def
      new_response_def StatusNoContent_def StatusBadRequest_def StatusUnauthorized_def split_beta
      split: sum.splits option.splits)

section \<open>Permanent bounces (C1)\<close>

text \<open>
  C1. A request comes with a decoded payload \<open>msg\<close> that carries a bounce object
  \<open>b\<close>. If \<open>b\<close> is Permanent, the handler resolves a queue for the payload (which it
  does only for a payload of type Bounce or Complaint; \<open>k\<close> and \<open>ch\<close> are the key
  and the channel it finds) and the channel has room for the \<open>N\<close> recipients of
  \<open>b\<close>, then the \<open>N\<close> addresses are sent on that channel in list order and stand in
  it right behind what was waiting; whatever follows them comes from the complaint block.
  If \<open>b\<close> is anything but Permanent, no bounce recipient is sent or even logged: the
  only sends and attempts are those of the complaint block, and the request has the very
  result of a request whose payload is the same without the bounce object.
\<close>

theorem permanent_bounce_enqueued:
  assumes "notification e h r msg"
    and "msg_Bounce msg = Some b"
  shows "(bounce_Type b = ''Permanent'' \<and> actionable msg \<and>
          resolve h (mail_Source msg) = Some (k, ch) \<and>
          length (bounce_Recipients b) \<le> room ch \<longrightarrow>
            h_m (after e h r) k =
              Some (ch\<lparr>ch_buf := ch_buf ch @ map br_Email (bounce_Recipients b) @
                       take (room ch - length (bounce_Recipients b)) (complaint_emails msg)\<rparr>) \<and>
            sends (trace e h r) =
              map (Pair k) (map br_Email (bounce_Recipients b) @
                       take (room ch - length (bounce_Recipients b)) (complaint_emails msg))) \<and>
         (bounce_Type b \<noteq> ''Permanent'' \<and> actionable msg \<and>
          resolve h (mail_Source msg) = Some (k, ch) \<longrightarrow>
            h_m (after e h r) k =
              Some (ch\<lparr>ch_buf := ch_buf ch @ take (room ch) (complaint_emails msg)\<rparr>) \<and>
            sends (trace e h r) = map (Pair k) (take (room ch) (complaint_emails msg)) \<and>
            attempts (trace e h r) = map (Pair (mail_Source msg)) (complaint_emails msg)) \<and>
         (bounce_Type b \<noteq> ''Permanent'' \<and> notification e h r' (msg\<lparr>msg_Bounce := None\<rparr>) \<longrightarrow>
            ServeHTTP e h r' = ServeHTTP e h r)"
proof -
  note n = ServeHTTP_notification [OF assms(1)]
  have resolved: "ServeHTTP e h r =
      (h\<lparr>h_m := (h_m h)(k \<mapsto> fst (dispatch (mail_Source msg) k msg ch))\<rparr>,
       WriteHeader StatusNoContent new_response, snd (dispatch (mail_Source msg) k msg ch))"
    if "actionable msg" and "resolve h (mail_Source msg) = Some (k, ch)"
    using n that by simp
  note d = dispatch_effect [of "mail_Source msg" k msg ch]
  have permanent: "bounce_emails msg = map br_Email (bounce_Recipients b)"
    if "bounce_Type b = ''Permanent''"
    using that assms(2) by (simp add: bounce_emails_def)
  have other: "bounce_emails msg = []" if "bounce_Type b \<noteq> ''Permanent''"
    using that assms(2) by (simp add: bounce_emails_def)
  have 1: "h_m (after e h r) k =
        Some (ch\<lparr>ch_buf := ch_buf ch @ map br_Email (bounce_Recipients b) @
                 take (room ch - length (bounce_Recipients b)) (complaint_emails msg)\<rparr>) \<and>
      sends (trace e h r) =
        map (Pair k) (map br_Email (bounce_Recipients b) @
                 take (room ch - length (bounce_Recipients b)) (complaint_emails msg))"
    if "bounce_Type b = ''Permanent''" and "actionable msg"
      and "resolve h (mail_Source msg) = Some (k, ch)"
      and "length (bounce_Recipients b) \<le> room ch"
    using d that(4) by (simp add: after_def trace_def resolved [OF that(2,3)] permanent [OF that(1)])
  have 2: "h_m (after e h r) k =
        Some (ch\<lparr>ch_buf := ch_buf ch @ take (room ch) (complaint_emails msg)\<rparr>) \<and>
      sends (trace e h r) = map (Pair k) (take (room ch) (complaint_emails msg)) \<and>
      attempts (trace e h r) = map (Pair (mail_Source msg)) (complaint_emails msg)"
    if "bounce_Type b \<noteq> ''Permanent''" and "actionable msg"
      and "resolve h (mail_Source msg) = Some (k, ch)"
    using d by (simp add: after_def trace_def resolved [OF that(2,3)] other [OF that(1)])
  have 3: "ServeHTTP e h r' = ServeHTTP e h r"
    if "bounce_Type b \<noteq> ''Permanent''" and "notification e h r' (msg\<lparr>msg_Bounce := None\<rparr>)"
  proof -
    have "dispatch s c (msg\<lparr>msg_Bounce := None\<rparr>) q = dispatch s c msg q" for s c q
      using that(1) assms(2) by (simp add: dispatch_def)
    then show ?thesis
      using n ServeHTTP_notification [OF that(2)]
      by (simp add: actionable_def split: option.splits)
  qed
  show ?thesis
    using 1 2 3 by blast
qed

text \<open>
  C1 at a Permanent bounce with two recipients on an empty queue, and at the same payload
  classified Transient, beside a request whose payload has no bounce object.
\<close>

theorem permanent_bounce_enqueued_witness:
  "notification (ex_env (ex_bounce ''Permanent'')) ex_news ex_request (ex_bounce ''Permanent'') \<and>
   msg_Bounce (ex_bounce ''Permanent'') = Some (ex_bounce_obj ''Permanent'') \<and>
   bounce_Type (ex_bounce_obj ''Permanent'') = ''Permanent'' \<and>
   actionable (ex_bounce ''Permanent'') \<and>
   resolve ex_news (mail_Source (ex_bounce ''Permanent'')) =
     Some (''news@example.com'', make_chan 100) \<and>
   length (bounce_Recipients (ex_bounce_obj ''Permanent'')) \<le> room (make_chan 100) \<and>
   h_m (after (ex_env (ex_bounce ''Permanent'')) ex_news ex_request) ''news@example.com'' =
     Some \<lparr>ch_buf = [''a@x.org'', ''b@x.org''], ch_cap = 100\<rparr> \<and>
   sends (trace (ex_env (ex_bounce ''Permanent'')) ex_news ex_request) =
     [(''news@example.com'', ''a@x.org''), (''news@example.com'', ''b@x.org'')] \<and>
   notification (ex_env2 (ex_bounce ''Transient'') ((ex_bounce ''Transient'')\<lparr>msg_Bounce := None\<rparr>))
     ex_news ex_request (ex_bounce ''Transient'') \<and>
   msg_Bounce (ex_bounce ''Transient'') = Some (ex_bounce_obj ''Transient'') \<and>
   bounce_Type (ex_bounce_obj ''Transient'') \<noteq> ''Permanent'' \<and>
   actionable (ex_bounce ''Transient'') \<and>
   resolve ex_news (mail_Source (ex_bounce ''Transient'')) =
     Some (''news@example.com'', make_chan 100) \<and>
   notification (ex_env2 (ex_bounce ''Transient'') ((ex_bounce ''Transient'')\<lparr>msg_Bounce := None\<rparr>))
     ex_news ex_request2 ((ex_bounce ''Transient'')\<lparr>msg_Bounce := None\<rparr>) \<and>
   h_m (after (ex_env2 (ex_bounce ''Transient'') ((ex_bounce ''Transient'')\<lparr>msg_Bounce := None\<rparr>))
     ex_news ex_request) ''news@example.com'' = Some \<lparr>ch_buf = [], ch_cap = 100\<rparr> \<and>
   sends (trace (ex_env2 (ex_bounce ''Transient'') ((ex_bounce ''Transient'')\<lparr>msg_Bounce := None\<rparr>))
     ex_news ex_request) = [] \<and>
   attempts (trace (ex_env2 (ex_bounce ''Transient'') ((ex_bounce ''Transient'')\<lparr>msg_Bounce := None\<rparr>))
     ex_news ex_request) = [] \<and>
   ServeHTTP (ex_env2 (ex_bounce ''Transient'') ((ex_bounce ''Transient'')\<lparr>msg_Bounce := None\<rparr>))
     ex_news ex_request2 =
   ServeHTTP (ex_env2 (ex_bounce ''Transient'') ((ex_bounce ''Transient'')\<lparr>msg_Bounce := None\<rparr>))
     ex_news ex_request"
proof -
  let ?e = "ex_env2 (ex_bounce ''Transient'') ((ex_bounce ''Transient'')\<lparr>msg_Bounce := None\<rparr>)"
  have n: "notification (ex_env (ex_bounce ''Permanent'')) ex_news ex_request (ex_bounce ''Permanent'')"
    by (simp add: eval_defs)
  have n1: "notification ?e ex_news ex_request (ex_bounce ''Transient'')"
    by (simp add: eval_defs)
  have n2: "notification ?e ex_news ex_request2 ((ex_bounce ''Transient'')\<lparr>msg_Bounce := None\<rparr>)"
    by (simp add: eval_defs)
  have b: "msg_Bounce (ex_bounce t) = Some (ex_bounce_obj t)" for t
    by (simp add: ex_bounce_def)
  have t: "bounce_Type (ex_bounce_obj ''Permanent'') = ''Permanent''"
    "bounce_Type (ex_bounce_obj ''Transient'') \<noteq> ''Permanent''"
    by (simp_all add: ex_bounce_obj_def)
  have a: "actionable (ex_bounce t)" for t
    by (simp add: eval_defs)
  have q: "resolve ex_news (mail_Source (ex_bounce t)) =
     Some (''news@example.com'', make_chan 100)" for t
    by (simp add: eval_defs make_chan_def)
  have l: "length (bounce_Recipients (ex_bounce_obj ''Permanent'')) \<le> room (make_chan 100)"
    by (simp add: ex_bounce_obj_def room_def make_chan_def)
  show ?thesis
    using n n1 n2 b t a q l
      permanent_bounce_enqueued [OF n b, of "''news@example.com''" "make_chan 100"]
      permanent_bounce_enqueued [OF n1 b, of "''news@example.com''" "make_chan 100" ex_request2]
    by (simp add: make_chan_def room_def complaint_emails_def ex_bounce_def ex_bounce_obj_def)
qed

section \<open>Complaints (C2)\<close>

text \<open>
  C2. A request reaches sender resolution with a payload that carries a complaint object
  \<open>c\<close>, whatever its bounce object is (absent, Permanent or not). If the resolved
  channel has room for everything the payload dispatches, all recipients of \<open>c\<close> are
  sent on it, in order, behind the bounce recipients if there are any, and nothing
  overflows.
\<close>

theorem complaint_recipients_enqueued:
  assumes "notification e h r msg"
    and "actionable msg"
    and "resolve h (mail_Source msg) = Some (k, ch)"
    and "msg_Complaint msg = Some c"
    and "length (bounce_emails msg) + length (complaint_Recipients c) \<le> room ch"
  shows "h_m (after e h r) k =
           Some (ch\<lparr>ch_buf := ch_buf ch @ bounce_emails msg @
                    map cr_Email (complaint_Recipients c)\<rparr>) \<and>
         sends (trace e h r) =
           map (Pair k) (bounce_emails msg @ map cr_Email (complaint_Recipients c)) \<and>
         overflows (trace e h r) = []"
proof -
  have s: "ServeHTTP e h r =
      (h\<lparr>h_m := (h_m h)(k \<mapsto> fst (dispatch (mail_Source msg) k msg ch))\<rparr>,
       WriteHeader StatusNoContent new_response, snd (dispatch (mail_Source msg) k msg ch))"
    using ServeHTTP_notification [OF assms(1)] assms(2,3) by simp
  have c: "complaint_emails msg = map cr_Email (complaint_Recipients c)"
    using assms(4) by (simp add: complaint_emails_def)
  show ?thesis
    using dispatch_effect [of "mail_Source msg" k msg ch] assms(5)
    by (simp add: after_def trace_def s c)
qed

text \<open>
  C2 at a complaint with two recipients and no bounce object, and at a payload that has a
  Permanent bounce with one recipient beside a complaint with one.
\<close>

theorem complaint_recipients_enqueued_witness:
  "notification (ex_env ex_complaint) ex_news ex_request ex_complaint \<and>
   actionable ex_complaint \<and>
   resolve ex_news (mail_Source ex_complaint) = Some (''news@example.com'', make_chan 100) \<and>
   msg_Complaint ex_complaint = Some ex_complaint_obj \<and>
   length (bounce_emails ex_complaint) + length (complaint_Recipients ex_complaint_obj)
     \<le> room (make_chan 100) \<and>
   h_m (after (ex_env ex_complaint) ex_news ex_request) ''news@example.com'' =
     Some \<lparr>ch_buf = [''c@x.org'', ''d@x.org''], ch_cap = 100\<rparr> \<and>
   sends (trace (ex_env ex_complaint) ex_news ex_request) =
     [(''news@example.com'', ''c@x.org''), (''news@example.com'', ''d@x.org'')] \<and>
   overflows (trace (ex_env ex_complaint) ex_news ex_request) = [] \<and>
   notification (ex_env (ex_both ''Complaint'')) ex_news ex_request (ex_both ''Complaint'') \<and>
   actionable (ex_both ''Complaint'') \<and>
   resolve ex_news (mail_Source (ex_both ''Complaint'')) =
     Some (''news@example.com'', make_chan 100) \<and>
   msg_Complaint (ex_both ''Complaint'') = Some ex_both_complaint \<and>
   length (bounce_emails (ex_both ''Complaint'')) + length (complaint_Recipients ex_both_complaint)
     \<le> room (make_chan 100) \<and>
   h_m (after (ex_env (ex_both ''Complaint'')) ex_news ex_request) ''news@example.com'' =
     Some \<lparr>ch_buf = [''a@x.org'', ''c@x.org''], ch_cap = 100\<rparr> \<and>
   sends (trace (ex_env (ex_both ''Complaint'')) ex_news ex_request) =
     [(''news@example.com'', ''a@x.org''), (''news@example.com'', ''c@x.org'')]"
proof -
  have n: "notification (ex_env ex_complaint) ex_news ex_request ex_complaint"
    by (simp add: eval_defs)
  have a: "actionable ex_complaint"
    by (simp add: eval_defs)
  have q: "resolve ex_news (mail_Source ex_complaint) = Some (''news@example.com'', make_chan 100)"
    by (simp add: eval_defs make_chan_def)
  have c: "msg_Complaint ex_complaint = Some ex_complaint_obj"
    by (simp add: eval_defs)
  have l: "length (bounce_emails ex_complaint) + length (complaint_Recipients ex_complaint_obj)
      \<le> room (make_chan 100)"
    by (simp add: eval_defs make_chan_def)
  have n': "notification (ex_env (ex_both ''Complaint'')) ex_news ex_request (ex_both ''Complaint'')"
    by (simp add: eval_defs)
  have a': "actionable (ex_both ''Complaint'')"
    by (simp add: eval_defs)
  have q': "resolve ex_news (mail_Source (ex_both ''Complaint'')) =
      Some (''news@example.com'', make_chan 100)"
    by (simp add: eval_defs make_chan_def)
  have c': "msg_Complaint (ex_both ''Complaint'') = Some ex_both_complaint"
    by (simp add: eval_defs)
  have l': "length (bounce_emails (ex_both ''Complaint'')) +
      length (complaint_Recipients ex_both_complaint) \<le> room (make_chan 100)"
    by (simp add: eval_defs make_chan_def)
  show ?thesis
    using n a q c l n' a' q' c' l'
      complaint_recipients_enqueued [OF n a q c l]
      complaint_recipients_enqueued [OF n' a' q' c' l']
    by (simp add: eval_defs make_chan_def)
qed

section \<open>Sender resolution (C3)\<close>

text \<open>
  C3. For a payload of type Bounce or Complaint: if the registry has an entry for the
  payload's sender, that entry's channel takes the addresses and no other entry changes;
  if it has none but has one under \<^verbatim>\<open>*\<close>, the channel under \<^verbatim>\<open>*\<close> takes them; if
  it has neither, the handler is unchanged, the only event is the log line for the
  unconfigured sender, and the status is 204.
\<close>

theorem sender_resolution:
  assumes "notification e h r msg"
    and "actionable msg"
  shows "(\<forall>ch. h_m h (mail_Source msg) = Some ch \<longrightarrow>
            after e h r =
              h\<lparr>h_m := (h_m h)(mail_Source msg \<mapsto>
                   ch\<lparr>ch_buf := ch_buf ch @
                        take (room ch) (bounce_emails msg @ complaint_emails msg)\<rparr>)\<rparr> \<and>
            sends (trace e h r) =
              map (Pair (mail_Source msg))
                (take (room ch) (bounce_emails msg @ complaint_emails msg)) \<and>
            resp_status (reply e h r) = 204) \<and>
         (\<forall>ch. h_m h (mail_Source msg) = None \<and> h_m h ''*'' = Some ch \<longrightarrow>
            after e h r =
              h\<lparr>h_m := (h_m h)(''*'' \<mapsto>
                   ch\<lparr>ch_buf := ch_buf ch @
                        take (room ch) (bounce_emails msg @ complaint_emails msg)\<rparr>)\<rparr> \<and>
            sends (trace e h r) =
              map (Pair ''*'') (take (room ch) (bounce_emails msg @ complaint_emails msg)) \<and>
            resp_status (reply e h r) = 204) \<and>
         (h_m h (mail_Source msg) = None \<and> h_m h ''*'' = None \<longrightarrow>
            after e h r = h \<and>
            trace e h r = [LogUnconfigured (mail_Source msg)] \<and>
            resp_status (reply e h r) = 204)"
proof -
  note s = ServeHTTP_notification [OF assms(1)]
  have hit: "after e h r =
        h\<lparr>h_m := (h_m h)(k \<mapsto>
             ch\<lparr>ch_buf := ch_buf ch @
                  take (room ch) (bounce_emails msg @ complaint_emails msg)\<rparr>)\<rparr> \<and>
      sends (trace e h r) =
        map (Pair k) (take (room ch) (bounce_emails msg @ complaint_emails msg)) \<and>
      resp_status (reply e h r) = 204"
    if "resolve h (mail_Source msg) = Some (k, ch)" for k ch
    using s assms(2) that dispatch_effect [of "mail_Source msg" k msg ch]
    by (simp add: after_def trace_def reply_def WriteHeader_def StatusNoContent_def)
  have miss: "after e h r = h \<and> trace e h r = [LogUnconfigured (mail_Source msg)] \<and>
      resp_status (reply e h r) = 204"
    if "resolve h (mail_Source msg) = None"
    using s assms(2) that
    by (simp add: after_def trace_def reply_def WriteHeader_def StatusNoContent_def)
  show ?thesis
    using hit [of "mail_Source msg"] hit [of "''*''"] miss
    by (simp add: resolve_def defaultKey_def)
qed

text \<open>
  C3 at one complaint and three registries: one holding the sender, one holding only
  \<^verbatim>\<open>*\<close>, one holding only another sender.
\<close>

theorem sender_resolution_witness:
  "notification (ex_env ex_complaint) ex_news ex_request ex_complaint \<and>
   notification (ex_env ex_complaint) (ex_handler ''*'' []) ex_request ex_complaint \<and>
   notification (ex_env ex_complaint) (ex_handler ''other@example.com'' []) ex_request ex_complaint \<and>
   actionable ex_complaint \<and>
   h_m ex_news (mail_Source ex_complaint) = Some (make_chan 100) \<and>
   after (ex_env ex_complaint) ex_news ex_request =
     ex_handler ''news@example.com'' [''c@x.org'', ''d@x.org''] \<and>
   sends (trace (ex_env ex_complaint) ex_news ex_request) =
     [(''news@example.com'', ''c@x.org''), (''news@example.com'', ''d@x.org'')] \<and>
   h_m (ex_handler ''*'' []) (mail_Source ex_complaint) = None \<and>
   h_m (ex_handler ''*'' []) ''*'' = Some (make_chan 100) \<and>
   after (ex_env ex_complaint) (ex_handler ''*'' []) ex_request =
     ex_handler ''*'' [''c@x.org'', ''d@x.org''] \<and>
   sends (trace (ex_env ex_complaint) (ex_handler ''*'' []) ex_request) =
     [(''*'', ''c@x.org''), (''*'', ''d@x.org'')] \<and>
   h_m (ex_handler ''other@example.com'' []) (mail_Source ex_complaint) = None \<and>
   h_m (ex_handler ''other@example.com'' []) ''*'' = None \<and>
   after (ex_env ex_complaint) (ex_handler ''other@example.com'' []) ex_request =
     ex_handler ''other@example.com'' [] \<and>
   trace (ex_env ex_complaint) (ex_handler ''other@example.com'' []) ex_request =
     [LogUnconfigured ''news@example.com''] \<and>
   resp_status (reply (ex_env ex_complaint) (ex_handler ''other@example.com'' []) ex_request) = 204"
proof -
  have n: "notification (ex_env ex_complaint) (ex_handler k []) ex_request ex_complaint" for k
    by (simp add: eval_defs)
  have a: "actionable ex_complaint"
    by (simp add: eval_defs)
  have 1: "h_m ex_news (mail_Source ex_complaint) = Some (make_chan 100)"
    by (simp add: eval_defs make_chan_def)
  have 2: "h_m (ex_handler ''*'' []) (mail_Source ex_complaint) = None \<and>
      h_m (ex_handler ''*'' []) ''*'' = Some (make_chan 100)"
    by (simp add: eval_defs make_chan_def)
  have 3: "h_m (ex_handler ''other@example.com'' []) (mail_Source ex_complaint) = None \<and>
      h_m (ex_handler ''other@example.com'' []) ''*'' = None"
    by (simp add: eval_defs)
  show ?thesis
    using n a 1 2 3
      sender_resolution [OF n a, of "''news@example.com''"]
      sender_resolution [OF n a, of "''*''"]
      sender_resolution [OF n a, of "''other@example.com''"]
    by (simp add: eval_defs make_chan_def)
qed

section \<open>Full queues (C4)\<close>

text \<open>
  C4. \<open>select_send\<close> is the whole of the \<^verbatim>\<open>select\<close> statement and always returns, so
  a full channel cannot hold the handler up. For a request that reaches the dispatch
  block with \<open>room ch\<close> free slots: every recipient is attempted (its log line is
  there), the first \<open>room ch\<close> addresses are sent, every later one is logged as an
  overflow with sender and address and appears nowhere in the channel, and the status is
  204 all the same. On a channel that is full from the start nothing changes at all and
  every recipient is logged as an overflow.
\<close>

theorem full_queue_drops_and_continues:
  assumes "notification e h r msg"
    and "actionable msg"
    and "resolve h (mail_Source msg) = Some (k, ch)"
  shows "resp_status (reply e h r) = 204 \<and>
         attempts (trace e h r) =
           map (Pair (mail_Source msg)) (bounce_emails msg @ complaint_emails msg) \<and>
         sends (trace e h r) =
           map (Pair k) (take (room ch) (bounce_emails msg @ complaint_emails msg)) \<and>
         overflows (trace e h r) =
           map (Pair (mail_Source msg))
             (drop (room ch) (bounce_emails msg @ complaint_emails msg)) \<and>
         h_m (after e h r) k =
           Some (ch\<lparr>ch_buf := ch_buf ch @
                    take (room ch) (bounce_emails msg @ complaint_emails msg)\<rparr>) \<and>
         (ch_cap ch \<le> length (ch_buf ch) \<longrightarrow>
            after e h r = h \<and>
            sends (trace e h r) = [] \<and>
            overflows (trace e h r) =
              map (Pair (mail_Source msg)) (bounce_emails msg @ complaint_emails msg))"
proof -
  have s: "ServeHTTP e h r =
      (h\<lparr>h_m := (h_m h)(k \<mapsto> fst (dispatch (mail_Source msg) k msg ch))\<rparr>,
       WriteHeader StatusNoContent new_response, snd (dispatch (mail_Source msg) k msg ch))"
    using ServeHTTP_notification [OF assms(1)] assms(2,3) by simp
  note d = dispatch_effect [of "mail_Source msg" k msg ch]
  have k: "h_m h k = Some ch"
    using assms(3) by (auto simp: resolve_def split: option.splits)
  have full: "after e h r = h" if "ch_cap ch \<le> length (ch_buf ch)"
  proof -
    have "room ch = 0" using that by (simp add: room_def)
    then have "fst (dispatch (mail_Source msg) k msg ch) = ch" using d by simp
    moreover have "(h_m h)(k \<mapsto> ch) = h_m h" using k by (rule map_upd_triv)
    ultimately show ?thesis by (simp add: after_def s)
  qed
  show ?thesis
    using d full
    by (simp add: after_def trace_def reply_def s WriteHeader_def StatusNoContent_def room_def)
qed

text \<open>
  C4 at a payload with one bounce and one complaint recipient, on a queue holding 100
  addresses and on one holding 99.
\<close>

theorem full_queue_drops_and_continues_witness:
  "notification (ex_env (ex_both ''Bounce'')) ex_full ex_request (ex_both ''Bounce'') \<and>
   actionable (ex_both ''Bounce'') \<and>
   resolve ex_full (mail_Source (ex_both ''Bounce'')) =
     Some (''news@example.com'', \<lparr>ch_buf = replicate 100 ''old@x.org'', ch_cap = 100\<rparr>) \<and>
   ch_cap \<lparr>ch_buf = replicate 100 ''old@x.org'', ch_cap = 100\<rparr>
     \<le> length (ch_buf \<lparr>ch_buf = replicate 100 ''old@x.org'', ch_cap = 100\<rparr>) \<and>
   resp_status (reply (ex_env (ex_both ''Bounce'')) ex_full ex_request) = 204 \<and>
   after (ex_env (ex_both ''Bounce'')) ex_full ex_request = ex_full \<and>
   attempts (trace (ex_env (ex_both ''Bounce'')) ex_full ex_request) =
     [(''news@example.com'', ''a@x.org''), (''news@example.com'', ''c@x.org'')] \<and>
   sends (trace (ex_env (ex_both ''Bounce'')) ex_full ex_request) = [] \<and>
   overflows (trace (ex_env (ex_both ''Bounce'')) ex_full ex_request) =
     [(''news@example.com'', ''a@x.org''), (''news@example.com'', ''c@x.org'')] \<and>
   notification (ex_env (ex_both ''Bounce'')) ex_nearly_full ex_request (ex_both ''Bounce'') \<and>
   resolve ex_nearly_full (mail_Source (ex_both ''Bounce'')) =
     Some (''news@example.com'', \<lparr>ch_buf = replicate 99 ''old@x.org'', ch_cap = 100\<rparr>) \<and>
   resp_status (reply (ex_env (ex_both ''Bounce'')) ex_nearly_full ex_request) = 204 \<and>
   attempts (trace (ex_env (ex_both ''Bounce'')) ex_nearly_full ex_request) =
     [(''news@example.com'', ''a@x.org''), (''news@example.com'', ''c@x.org'')] \<and>
   sends (trace (ex_env (ex_both ''Bounce'')) ex_nearly_full ex_request) =
     [(''news@example.com'', ''a@x.org'')] \<and>
   overflows (trace (ex_env (ex_both ''Bounce'')) ex_nearly_full ex_request) =
     [(''news@example.com'', ''c@x.org'')] \<and>
   h_m (after (ex_env (ex_both ''Bounce'')) ex_nearly_full ex_request) ''news@example.com'' =
     Some \<lparr>ch_buf = replicate 99 ''old@x.org'' @ [''a@x.org''], ch_cap = 100\<rparr>"
proof -
  have n: "notification (ex_env (ex_both ''Bounce'')) (ex_handler ''news@example.com'' w)
      ex_request (ex_both ''Bounce'')" for w
    by (simp add: eval_defs)
  have a: "actionable (ex_both ''Bounce'')"
    by (simp add: eval_defs)
  have q: "resolve (ex_handler ''news@example.com'' w) (mail_Source (ex_both ''Bounce'')) =
      Some (''news@example.com'', \<lparr>ch_buf = w, ch_cap = 100\<rparr>)" for w
    by (simp add: eval_defs)
  show ?thesis
    using n a q
      full_queue_drops_and_continues [OF n a q, of "replicate 100 ''old@x.org''"]
      full_queue_drops_and_continues [OF n a q, of "replicate 99 ''old@x.org''"]
    by (simp add: room_def bounce_emails_def complaint_emails_def ex_both_def
        ex_both_complaint_def)
qed

section \<open>Subscription confirmation (C5)\<close>

text \<open>
  The branch as the code has it (lines 178 to 184): a request that passes the credential
  check and whose envelope is of type SubscriptionConfirmation is answered with 204,
  changes nothing in the handler and sends nothing; \<^verbatim>\<open>confirm\<close> is called once when
  \<^verbatim>\<open>strings.Contains\<close> finds \<^verbatim>\<open>amazonaws.com\<close> in the URL, and not at all
  otherwise.
\<close>

lemma subscription_branch:
  assumes "authorized h r"
    and "json_Decode e (take (2 * 2 ^ 20) (req_Body r)) = Inr sns"
    and "sns_Type sns = ''SubscriptionConfirmation''"
  shows "resp_status (reply e h r) = 204 \<and>
         after e h r = h \<and>
         sends (trace e h r) = [] \<and>
         trace e h r =
           (if Contains (sns_URL sns) ''amazonaws.com''
            then [LogFollowing (sns_URL sns), HttpGet (sns_URL sns)] else [])"
proof -
  have c: "snd (confirm e u) = [HttpGet u]" for u
    by (simp add: confirm_def split: option.splits)
  have "ServeHTTP e h r =
      (h, WriteHeader StatusNoContent new_response,
       if Contains (sns_URL sns) ''amazonaws.com''
       then [LogFollowing (sns_URL sns), HttpGet (sns_URL sns)] else [])"
    unfolding ServeHTTP_def auth_gate using assms by (simp add: c)
  then show ?thesis
    by (simp add: reply_def after_def trace_def WriteHeader_def StatusNoContent_def)
qed

text \<open>
  C5. The claim: a subscription confirmation is answered with 204 and nothing more
  happens, and the confirmation URL is fetched exactly once if its host matches the
  domain of the notification service, and not at all otherwise. The guard of line 179 is
  there to keep the fetch to that domain, but it looks for \<^verbatim>\<open>amazonaws.com\<close> in the
  whole URL. At the URL \<^verbatim>\<open>http://example.com/amazonaws.com\<close> the host is
  \<^verbatim>\<open>example.com\<close>, which does not mention the domain, and the code follows the URL
  all the same: it logs that it does and calls \<^verbatim>\<open>confirm\<close> on it. The answer is 204
  and the handler is unchanged, as the claim says.
\<close>

theorem confirmation_fetches_foreign_host:
  "spec_url_host ''http://example.com/amazonaws.com'' = ''example.com'' \<and>
   \<not> spec_host_matches ''http://example.com/amazonaws.com'' \<and>
   trace (ex_env_outer (ex_confirmation ''http://example.com/amazonaws.com'')) ex_news ex_request =
     [LogFollowing ''http://example.com/amazonaws.com'',
      HttpGet ''http://example.com/amazonaws.com''] \<and>
   gets (trace (ex_env_outer (ex_confirmation ''http://example.com/amazonaws.com''))
     ex_news ex_request) = [''http://example.com/amazonaws.com''] \<and>
   resp_status (reply (ex_env_outer (ex_confirmation ''http://example.com/amazonaws.com''))
     ex_news ex_request) = 204 \<and>
   after (ex_env_outer (ex_confirmation ''http://example.com/amazonaws.com'')) ex_news ex_request =
     ex_news"
proof -
  have h: "spec_url_host ''http://example.com/amazonaws.com'' = ''example.com''"
    by (simp add: spec_url_host_def)
  then have m: "\<not> spec_host_matches ''http://example.com/amazonaws.com''"
    by (simp add: spec_host_matches_def)
  have s: "ServeHTTP (ex_env_outer (ex_confirmation ''http://example.com/amazonaws.com''))
      ex_news ex_request =
      (ex_news, WriteHeader StatusNoContent new_response,
       [LogFollowing ''http://example.com/amazonaws.com'',
        HttpGet ''http://example.com/amazonaws.com''])"
    by (simp add: ServeHTTP_def eval_defs confirm_def)
  show ?thesis
    using h m
    by (simp add: trace_def reply_def after_def s WriteHeader_def StatusNoContent_def)
qed

section \<open>Other event types (C6)\<close>

text \<open>
  C6. A decoded inner payload whose type is neither Bounce nor Complaint is answered with
  204; the handler is unchanged and the only event is the log line naming the type.
\<close>

theorem unsupported_inner_type_ignored:
  assumes "notification e h r msg"
    and "msg_Type msg \<noteq> ''Bounce''"
    and "msg_Type msg \<noteq> ''Complaint''"
  shows "resp_status (reply e h r) = 204 \<and>
         after e h r = h \<and>
         trace e h r = [LogUnsupportedMsg (msg_Type msg)] \<and>
         sends (trace e h r) = []"
  using ServeHTTP_notification [OF assms(1)] assms(2,3)
  by (simp add: actionable_def after_def trace_def reply_def WriteHeader_def StatusNoContent_def)

text \<open>C6 at a Delivery payload from a registered sender.\<close>

theorem unsupported_inner_type_ignored_witness:
  "notification (ex_env ex_delivery) ex_news ex_request ex_delivery \<and>
   msg_Type ex_delivery \<noteq> ''Bounce'' \<and>
   msg_Type ex_delivery \<noteq> ''Complaint'' \<and>
   resp_status (reply (ex_env ex_delivery) ex_news ex_request) = 204 \<and>
   after (ex_env ex_delivery) ex_news ex_request = ex_news \<and>
   trace (ex_env ex_delivery) ex_news ex_request = [LogUnsupportedMsg ''Delivery''] \<and>
   sends (trace (ex_env ex_delivery) ex_news ex_request) = []"
proof -
  have n: "notification (ex_env ex_delivery) ex_news ex_request ex_delivery"
    by (simp add: eval_defs)
  have b: "msg_Type ex_delivery \<noteq> ''Bounce''" and c: "msg_Type ex_delivery \<noteq> ''Complaint''"
    by (simp_all add: ex_delivery_def)
  show ?thesis
    using n b c unsupported_inner_type_ignored [OF n b c]
    by (simp add: ex_delivery_def)
qed

section \<open>Bad requests (C7)\<close>

text \<open>
  C7, amended. The status is 400 exactly when the request passes the credential check
  and its body does not decode as an envelope, or the envelope's type is neither
  SubscriptionConfirmation nor Notification, or the envelope is of type Notification and
  its message does not decode as a payload. A request answered with 400 changes nothing
  in the handler and sends nothing.
\<close>

theorem bad_request_exactly:
  "(resp_status (reply e h r) = 400) =
     (authorized h r \<and>
      (outer_decode_fails e r \<or> outer_type_unsupported e r \<or>
       (outer_type_is e r ''Notification'' \<and> inner_decode_fails e r))) \<and>
   (resp_status (reply e h r) = 400 \<longrightarrow> after e h r = h \<and> sends (trace e h r) = [])"
proof (cases "authorized h r")
  case False
  then show ?thesis
    unfolding reply_def after_def trace_def ServeHTTP_def auth_gate
    by (simp add: http_Error_def Header_Set_def new_response_def StatusUnauthorized_def)
next
  case True
  show ?thesis
  proof (cases "envelope e r")
    case (Inl err)
    then show ?thesis
      using True unfolding reply_def after_def trace_def ServeHTTP_def auth_gate
      by (simp add: envelope_def outer_decode_fails_def http_Error_def new_response_def
          StatusBadRequest_def)
  next
    case (Inr sns)
    then have d: "json_Decode e (take (2 * 2 ^ 20) (req_Body r)) = Inr sns"
      by (simp add: envelope_def)
    show ?thesis
      using True Inr unfolding reply_def after_def trace_def ServeHTTP_def auth_gate d
      by (simp add: outer_decode_fails_def outer_type_unsupported_def outer_type_is_def
          inner_decode_fails_def http_Error_def WriteHeader_def new_response_def
          StatusBadRequest_def StatusNoContent_def split_beta
          split: sum.splits option.splits)
  qed
qed

text \<open>
  C7 at a body that does not decode, at an envelope of an unknown type, at a Notification
  whose message does not decode, and at a well-formed complaint.
\<close>

theorem bad_request_exactly_witness:
  "authorized ex_news ex_bad_body \<and>
   outer_decode_fails (ex_env ex_complaint) ex_bad_body \<and>
   resp_status (reply (ex_env ex_complaint) ex_news ex_bad_body) = 400 \<and>
   after (ex_env ex_complaint) ex_news ex_bad_body = ex_news \<and>
   sends (trace (ex_env ex_complaint) ex_news ex_bad_body) = [] \<and>
   authorized ex_news ex_request \<and>
   outer_type_unsupported (ex_env_outer (ex_envelope\<lparr>sns_Type := ''UnsubscribeConfirmation''\<rparr>))
     ex_request \<and>
   resp_status (reply (ex_env_outer (ex_envelope\<lparr>sns_Type := ''UnsubscribeConfirmation''\<rparr>))
     ex_news ex_request) = 400 \<and>
   outer_type_is (ex_env_outer ex_envelope) ex_request ''Notification'' \<and>
   inner_decode_fails (ex_env_outer ex_envelope) ex_request \<and>
   resp_status (reply (ex_env_outer ex_envelope) ex_news ex_request) = 400 \<and>
   \<not> outer_decode_fails (ex_env ex_complaint) ex_request \<and>
   \<not> outer_type_unsupported (ex_env ex_complaint) ex_request \<and>
   \<not> inner_decode_fails (ex_env ex_complaint) ex_request \<and>
   resp_status (reply (ex_env ex_complaint) ex_news ex_request) \<noteq> 400"
proof -
  have a: "authorized ex_news r" for r
    by (simp add: eval_defs)
  have 1: "outer_decode_fails (ex_env ex_complaint) ex_bad_body"
    by (simp add: outer_decode_fails_def envelope_def eval_defs)
  have 2: "outer_type_unsupported
      (ex_env_outer (ex_envelope\<lparr>sns_Type := ''UnsubscribeConfirmation''\<rparr>)) ex_request"
    by (simp add: outer_type_unsupported_def envelope_def eval_defs)
  have 3: "outer_type_is (ex_env_outer ex_envelope) ex_request ''Notification'' \<and>
      inner_decode_fails (ex_env_outer ex_envelope) ex_request"
    by (simp add: outer_type_is_def inner_decode_fails_def envelope_def eval_defs)
  have 4: "\<not> outer_decode_fails (ex_env ex_complaint) ex_request \<and>
      \<not> outer_type_unsupported (ex_env ex_complaint) ex_request \<and>
      \<not> inner_decode_fails (ex_env ex_complaint) ex_request"
    by (simp add: outer_decode_fails_def outer_type_unsupported_def inner_decode_fails_def
        envelope_def eval_defs)
  show ?thesis
    using a 1 2 3 4
      bad_request_exactly [of "ex_env ex_complaint" ex_news ex_bad_body]
      bad_request_exactly [of "ex_env_outer (ex_envelope\<lparr>sns_Type := ''UnsubscribeConfirmation''\<rparr>)"
        ex_news ex_request]
      bad_request_exactly [of "ex_env_outer ex_envelope" ex_news ex_request]
      bad_request_exactly [of "ex_env ex_complaint" ex_news ex_request]
    by simp
qed

text \<open>
  C7 as stated fails twice: a subscription confirmation whose message is plain text (as
  the notification service sends it) satisfies the third condition and is answered with
  204, not 400; and a body that does not decode is answered with 401 when the credential
  check rejects the request first.
\<close>

theorem bad_request_counterexample:
  "\<not> ((resp_status (reply (ex_env_outer (ex_confirmation ex_sns_url)) ex_news ex_request) = 400) =
       (outer_decode_fails (ex_env_outer (ex_confirmation ex_sns_url)) ex_request \<or>
        outer_type_unsupported (ex_env_outer (ex_confirmation ex_sns_url)) ex_request \<or>
        inner_decode_fails (ex_env_outer (ex_confirmation ex_sns_url)) ex_request)) \<and>
   \<not> ((resp_status (reply (ex_env ex_complaint) ex_locked ex_bad_body) = 400) =
       (outer_decode_fails (ex_env ex_complaint) ex_bad_body \<or>
        outer_type_unsupported (ex_env ex_complaint) ex_bad_body \<or>
        inner_decode_fails (ex_env ex_complaint) ex_bad_body))"
proof -
  have 1: "inner_decode_fails (ex_env_outer (ex_confirmation ex_sns_url)) ex_request"
    by (simp add: inner_decode_fails_def envelope_def eval_defs)
  have 2: "resp_status (reply (ex_env_outer (ex_confirmation ex_sns_url)) ex_news ex_request) = 204"
    by (simp add: reply_def ServeHTTP_def eval_defs WriteHeader_def new_response_def
        StatusNoContent_def)
  have 3: "outer_decode_fails (ex_env ex_complaint) ex_bad_body"
    by (simp add: outer_decode_fails_def envelope_def eval_defs)
  have 4: "resp_status (reply (ex_env ex_complaint) ex_locked ex_bad_body) = 401"
    by (simp add: reply_def ServeHTTP_def eval_defs http_Error_def Header_Set_def new_response_def
        StatusUnauthorized_def)
  show ?thesis
    using 1 2 3 4 by simp
qed

section \<open>The credential check (C8)\<close>

text \<open>
  C8. With both credentials configured, a request without Basic credentials or with a
  pair other than the configured one is answered with 401 and the
  \<^verbatim>\<open>WWW-Authenticate\<close> challenge, and nothing else happens: no event, no change of
  the handler. With an empty user name or an empty password the request's credentials
  are never looked at: any two requests that differ only in them have the same result,
  and that result is never 401.
\<close>

theorem basic_auth_gate:
  \<open>(h_user h \<noteq> [] \<and> h_pass h \<noteq> [] \<and> req_BasicAuth r \<noteq> Some (h_user h, h_pass h) \<longrightarrow>
      resp_status (reply e h r) = 401 \<and>
      resp_header (reply e h r) ''WWW-Authenticate'' = Some ''Basic realm="private"'' \<and>
      after e h r = h \<and>
      trace e h r = []) \<and>
   (h_user h = [] \<or> h_pass h = [] \<longrightarrow>
      ServeHTTP e h (r\<lparr>req_BasicAuth := c\<rparr>) = ServeHTTP e h r \<and>
      resp_status (reply e h r) \<noteq> 401)\<close>
proof -
  have locked: "resp_status (reply e h r) = 401 \<and>
      resp_header (reply e h r) ''WWW-Authenticate'' = Some ''Basic realm=\"private\"'' \<and>
      after e h r = h \<and> trace e h r = []"
    if "\<not> authorized h r"
    using that unfolding reply_def after_def trace_def ServeHTTP_def auth_gate
    by (simp add: http_Error_def Header_Set_def new_response_def StatusUnauthorized_def)
  have l: "h_user h \<noteq> [] \<and> h_pass h \<noteq> [] \<and> req_BasicAuth r \<noteq> Some (h_user h, h_pass h)
      \<Longrightarrow> \<not> authorized h r"
    by (simp add: authorized_def)
  have "ServeHTTP e h (r\<lparr>req_BasicAuth := c\<rparr>) = ServeHTTP e h r \<and>
      resp_status (reply e h r) \<noteq> 401"
    if "h_user h = [] \<or> h_pass h = []"
  proof -
    have a: "authorized h r" "authorized h (r\<lparr>req_BasicAuth := c\<rparr>)"
      using that by (auto simp: authorized_def)
    have "ServeHTTP e h (r\<lparr>req_BasicAuth := c\<rparr>) = ServeHTTP e h r"
      unfolding ServeHTTP_def auth_gate using a by simp
    moreover have "resp_status (reply e h r) \<noteq> 401"
      unfolding reply_def ServeHTTP_def auth_gate using a
      by (simp add: http_Error_def WriteHeader_def new_response_def StatusNoContent_def
          StatusBadRequest_def split_beta split: sum.splits option.splits)
    ultimately show ?thesis by simp
  qed
  then show ?thesis using locked l by blast
qed

text \<open>
  C8 at a handler locked with a user name and a password, for a request without
  credentials and one with a wrong password, and at a handler whose password is empty.
\<close>

theorem basic_auth_gate_witness:
  \<open>h_user ex_locked \<noteq> [] \<and> h_pass ex_locked \<noteq> [] \<and>
   req_BasicAuth ex_request \<noteq> Some (h_user ex_locked, h_pass ex_locked) \<and>
   resp_status (reply (ex_env ex_complaint) ex_locked ex_request) = 401 \<and>
   resp_header (reply (ex_env ex_complaint) ex_locked ex_request) ''WWW-Authenticate'' =
     Some ''Basic realm="private"'' \<and>
   after (ex_env ex_complaint) ex_locked ex_request = ex_locked \<and>
   trace (ex_env ex_complaint) ex_locked ex_request = [] \<and>
   req_BasicAuth (ex_request\<lparr>req_BasicAuth := Some (''sns'', ''wrong'')\<rparr>) \<noteq>
     Some (h_user ex_locked, h_pass ex_locked) \<and>
   resp_status (reply (ex_env ex_complaint) ex_locked
     (ex_request\<lparr>req_BasicAuth := Some (''sns'', ''wrong'')\<rparr>)) = 401 \<and>
   (h_user (withBasicAuth ex_news ''sns'' []) = [] \<or> h_pass (withBasicAuth ex_news ''sns'' []) = []) \<and>
   ServeHTTP (ex_env ex_complaint) (withBasicAuth ex_news ''sns'' [])
     (ex_request\<lparr>req_BasicAuth := Some (''sns'', ''wrong'')\<rparr>) =
   ServeHTTP (ex_env ex_complaint) (withBasicAuth ex_news ''sns'' []) ex_request \<and>
   resp_status (reply (ex_env ex_complaint) (withBasicAuth ex_news ''sns'' []) ex_request) \<noteq> 401\<close>
proof -
  have 1: "h_user ex_locked \<noteq> [] \<and> h_pass ex_locked \<noteq> [] \<and>
      req_BasicAuth ex_request \<noteq> Some (h_user ex_locked, h_pass ex_locked)"
    by (simp add: eval_defs)
  have 2: "h_user ex_locked \<noteq> [] \<and> h_pass ex_locked \<noteq> [] \<and>
      req_BasicAuth (ex_request\<lparr>req_BasicAuth := Some (''sns'', ''wrong'')\<rparr>) \<noteq>
        Some (h_user ex_locked, h_pass ex_locked)"
    by (simp add: eval_defs)
  have 3: "h_user (withBasicAuth ex_news ''sns'' []) = [] \<or>
      h_pass (withBasicAuth ex_news ''sns'' []) = []"
    by (simp add: eval_defs)
  show ?thesis
    using 1 2 3
      basic_auth_gate [of ex_locked ex_request "ex_env ex_complaint"]
      basic_auth_gate [of ex_locked "ex_request\<lparr>req_BasicAuth := Some (''sns'', ''wrong'')\<rparr>"
        "ex_env ex_complaint"]
      basic_auth_gate [of "withBasicAuth ex_news ''sns'' []" ex_request "ex_env ex_complaint"
        "Some (''sns'', ''wrong'')"]
    by simp
qed

section \<open>Registration (C9)\<close>

text \<open>
  C9. \<open>Register\<close> on a sender that has an entry panics and yields no new handler, so
  the entry stays as it was. On a fresh sender it stores an empty channel of capacity 100
  under that sender, leaves every other entry and the credentials alone, and starts
  exactly one worker, bound to the new entry: the workers on the new entry grow by that
  one, the workers on every other entry stay as they were.
\<close>

theorem register_contract:
  "(h_m h s \<noteq> None \<longrightarrow> Register h s f = Inl (AlreadyRegistered s)) \<and>
   (h_m h s = None \<longrightarrow>
      (\<exists>h'. Register h s f = Inr h' \<and>
         h_m h' s = Some \<lparr>ch_buf = [], ch_cap = 100\<rparr> \<and>
         (\<forall>k. k \<noteq> s \<longrightarrow> h_m h' k = h_m h k) \<and>
         h_workers h' = h_workers h @ [\<lparr>w_key = s, w_f = f\<rparr>] \<and>
         workers_on h' s = workers_on h s @ [\<lparr>w_key = s, w_f = f\<rparr>] \<and>
         (\<forall>k. k \<noteq> s \<longrightarrow> workers_on h' k = workers_on h k) \<and>
         h_user h' = h_user h \<and> h_pass h' = h_pass h \<and> h_done h' = h_done h))"
proof (cases "h_m h s")
  case None
  let ?h' = "h\<lparr>h_m := (h_m h)(s \<mapsto> make_chan 100),
               h_workers := h_workers h @ [\<lparr>w_key = s, w_f = f\<rparr>]\<rparr>"
  have "Register h s f = Inr ?h'"
    using None by (simp add: Register_def)
  moreover have "h_m ?h' s = Some \<lparr>ch_buf = [], ch_cap = 100\<rparr>"
    by (simp add: make_chan_def)
  moreover have "\<forall>k. k \<noteq> s \<longrightarrow> h_m ?h' k = h_m h k"
    by simp
  moreover have "workers_on ?h' s = workers_on h s @ [\<lparr>w_key = s, w_f = f\<rparr>]"
    by (simp add: workers_on_def)
  moreover have "\<forall>k. k \<noteq> s \<longrightarrow> workers_on ?h' k = workers_on h k"
    by (simp add: workers_on_def)
  ultimately show ?thesis
    using None by simp
next
  case (Some ch)
  then show ?thesis by (simp add: Register_def)
qed

text \<open>
  C9 at the first registration of a sender on a new handler, at a second sender, and at
  the repeated registration of the first.
\<close>

theorem register_contract_witness:
  "h_m (newHandler :: unit handler) ''news@example.com'' = None \<and>
   Register newHandler ''news@example.com'' () = Inr ex_news \<and>
   h_m ex_news ''*'' = None \<and>
   (\<exists>h'. Register ex_news ''*'' () = Inr h' \<and>
      h_m h' ''*'' = Some \<lparr>ch_buf = [], ch_cap = 100\<rparr> \<and>
      h_m h' ''news@example.com'' = h_m ex_news ''news@example.com'' \<and>
      h_workers h' = [\<lparr>w_key = ''news@example.com'', w_f = ()\<rparr>, \<lparr>w_key = ''*'', w_f = ()\<rparr>] \<and>
      workers_on h' ''*'' = [\<lparr>w_key = ''*'', w_f = ()\<rparr>]) \<and>
   h_m ex_news ''news@example.com'' \<noteq> None \<and>
   Register ex_news ''news@example.com'' () = Inl (AlreadyRegistered ''news@example.com'')"
proof -
  have 1: "h_m (newHandler :: unit handler) ''news@example.com'' = None"
    by (simp add: newHandler_def)
  have 2: "h_m ex_news ''news@example.com'' \<noteq> None" "h_m ex_news ''*'' = None"
    by (simp_all add: ex_handler_def)
  have 3: "Register newHandler ''news@example.com'' () = Inr ex_news"
    using register_contract [of newHandler "''news@example.com''" "()"]
    by (simp add: Register_def newHandler_def ex_handler_def make_chan_def)
  have 4: "h_workers ex_news = [\<lparr>w_key = ''news@example.com'', w_f = ()\<rparr>]"
    by (simp add: ex_handler_def)
  from register_contract [of ex_news "''*''" "()"] 2
  obtain h' where h': "Register ex_news ''*'' () = Inr h'"
    "h_m h' ''*'' = Some \<lparr>ch_buf = [], ch_cap = 100\<rparr>"
    "\<forall>k. k \<noteq> ''*'' \<longrightarrow> h_m h' k = h_m ex_news k"
    "h_workers h' = h_workers ex_news @ [\<lparr>w_key = ''*'', w_f = ()\<rparr>]"
    "workers_on h' ''*'' = workers_on ex_news ''*'' @ [\<lparr>w_key = ''*'', w_f = ()\<rparr>]"
    by blast
  have 6: "workers_on ex_news ''*'' = []"
    by (simp add: workers_on_def ex_handler_def)
  have "h_m h' ''news@example.com'' = h_m ex_news ''news@example.com''"
    using h'(3) by simp
  then have 5: "\<exists>h'. Register ex_news ''*'' () = Inr h' \<and>
      h_m h' ''*'' = Some \<lparr>ch_buf = [], ch_cap = 100\<rparr> \<and>
      h_m h' ''news@example.com'' = h_m ex_news ''news@example.com'' \<and>
      h_workers h' = [\<lparr>w_key = ''news@example.com'', w_f = ()\<rparr>, \<lparr>w_key = ''*'', w_f = ()\<rparr>] \<and>
      workers_on h' ''*'' = [\<lparr>w_key = ''*'', w_f = ()\<rparr>]"
    using h' 4 6 by auto
  show ?thesis
    using 1 2 3 5
      register_contract [of ex_news "''news@example.com''" "()"]
    by simp
qed

section \<open>Dispatch follows the sub-objects (C10)\<close>

text \<open>
  C10. For a payload of type Bounce or Complaint with a resolved queue, what is sent is
  the recipients of a present Permanent bounce object followed by the recipients of a
  present complaint object, as far as the room goes; the type itself plays no part. A
  second request whose payload differs from the first only in being of the other type
  has exactly the same result: handler, response and trace.
\<close>

theorem dispatch_follows_subobjects:
  assumes "notification e h r msg"
    and "actionable msg"
    and "resolve h (mail_Source msg) = Some (k, ch)"
    and "notification e h r' (msg\<lparr>msg_Type := t\<rparr>)"
    and "t = ''Bounce'' \<or> t = ''Complaint''"
  shows "ServeHTTP e h r' = ServeHTTP e h r \<and>
         sends (trace e h r) =
           map (Pair k) (take (room ch) (bounce_emails msg @ complaint_emails msg)) \<and>
         attempts (trace e h r) =
           map (Pair (mail_Source msg)) (bounce_emails msg @ complaint_emails msg)"
proof -
  have s: "ServeHTTP e h r =
      (h\<lparr>h_m := (h_m h)(k \<mapsto> fst (dispatch (mail_Source msg) k msg ch))\<rparr>,
       WriteHeader StatusNoContent new_response, snd (dispatch (mail_Source msg) k msg ch))"
    using ServeHTTP_notification [OF assms(1)] assms(2,3) by simp
  have d: "dispatch s k (msg\<lparr>msg_Type := t\<rparr>) ch = dispatch s k msg ch" for s
    by (simp add: dispatch_def)
  have a: "actionable (msg\<lparr>msg_Type := t\<rparr>)"
    using assms(5) by (auto simp: actionable_def)
  have s': "ServeHTTP e h r' = ServeHTTP e h r"
    using ServeHTTP_notification [OF assms(4)] a assms(3) by (simp add: s d)
  show ?thesis
    using s' dispatch_effect [of "mail_Source msg" k msg ch]
    by (simp add: trace_def s)
qed

text \<open>
  C10 at a payload of type Bounce that carries both a Permanent bounce and a complaint,
  and its twin of type Complaint.
\<close>

theorem dispatch_follows_subobjects_witness:
  "notification (ex_env2 (ex_both ''Bounce'') (ex_both ''Complaint'')) ex_news ex_request
     (ex_both ''Bounce'') \<and>
   actionable (ex_both ''Bounce'') \<and>
   resolve ex_news (mail_Source (ex_both ''Bounce'')) = Some (''news@example.com'', make_chan 100) \<and>
   notification (ex_env2 (ex_both ''Bounce'') (ex_both ''Complaint'')) ex_news ex_request2
     ((ex_both ''Bounce'')\<lparr>msg_Type := ''Complaint''\<rparr>) \<and>
   (''Complaint'' = ''Bounce'' \<or> ''Complaint'' = ''Complaint'') \<and>
   ServeHTTP (ex_env2 (ex_both ''Bounce'') (ex_both ''Complaint'')) ex_news ex_request2 =
     ServeHTTP (ex_env2 (ex_both ''Bounce'') (ex_both ''Complaint'')) ex_news ex_request \<and>
   sends (trace (ex_env2 (ex_both ''Bounce'') (ex_both ''Complaint'')) ex_news ex_request) =
     [(''news@example.com'', ''a@x.org''), (''news@example.com'', ''c@x.org'')] \<and>
   sends (trace (ex_env2 (ex_both ''Bounce'') (ex_both ''Complaint'')) ex_news ex_request2) =
     [(''news@example.com'', ''a@x.org''), (''news@example.com'', ''c@x.org'')]"
proof -
  have n: "notification (ex_env2 (ex_both ''Bounce'') (ex_both ''Complaint'')) ex_news ex_request
      (ex_both ''Bounce'')"
    by (simp add: eval_defs)
  have a: "actionable (ex_both ''Bounce'')"
    by (simp add: eval_defs)
  have q: "resolve ex_news (mail_Source (ex_both ''Bounce'')) =
      Some (''news@example.com'', make_chan 100)"
    by (simp add: eval_defs make_chan_def)
  have n': "notification (ex_env2 (ex_both ''Bounce'') (ex_both ''Complaint'')) ex_news ex_request2
      ((ex_both ''Bounce'')\<lparr>msg_Type := ''Complaint''\<rparr>)"
    by (simp add: eval_defs)
  have t: "''Complaint'' = ''Bounce'' \<or> ''Complaint'' = ''Complaint''"
    by simp
  show ?thesis
    using n a q n' dispatch_follows_subobjects [OF n a q n' t]
    by (simp add: trace_def eval_defs make_chan_def)
qed

end
